theory Spec2Isabelle
  imports Main "HOL-Library.Word"
begin

section \<open>Go strings and errors\<close>

text \<open>
  A Go \<open>error\<close> is observed by the service code only through its \<open>Error()\<close> text, so an
  error value is its message.
\<close>

datatype error = Error (Error_msg: string)

text \<open>\<open>strings.HasPrefix\<close>, \<open>strings.TrimPrefix\<close> and \<open>strings.Contains\<close>.\<close>

definition HasPrefix :: "string \<Rightarrow> string \<Rightarrow> bool" where
  "HasPrefix s p = (take (length p) s = p)"

definition TrimPrefix :: "string \<Rightarrow> string \<Rightarrow> string" where
  "TrimPrefix s p = (if HasPrefix s p then drop (length p) s else s)"

fun Contains :: "string \<Rightarrow> string \<Rightarrow> bool" where
  "Contains [] sub = (sub = [])"
| "Contains (x # xs) sub = (HasPrefix (x # xs) sub \<or> Contains xs sub)"

declare Contains.simps [simp del]

text \<open>
  \<open>strings.Split(s, sep)\<close> for a separator of one byte, which is what both call sites of
  the watch handler pass (\<open>"/"\<close> and \<open>":"\<close>): the pieces of \<open>s\<close> between the occurrences of
  the separator. The result is never empty: \<open>Split("", sep)\<close> is one empty string.
\<close>

fun Split :: "string \<Rightarrow> char \<Rightarrow> string list" where
  "Split [] c = [[]]"
| "Split (x # xs) c =
     (if x = c then [] # Split xs c
      else (case Split xs c of [] \<Rightarrow> [[x]] | p # ps \<Rightarrow> (x # p) # ps))"

text \<open>
  \<open>strconv.Itoa\<close>: the decimal text of an integer, with a leading minus sign when it is
  negative.
\<close>

definition digit_char :: "int \<Rightarrow> char" where
  "digit_char d = char_of (of_char (CHR ''0'') + d)"

function utoa :: "int \<Rightarrow> string" where
  "utoa n = (if n < 10 then [digit_char n] else utoa (n div 10) @ [digit_char (n mod 10)])"
  by pat_completeness auto
termination
  by (relation "measure nat") auto

declare utoa.simps [simp del]

definition Itoa :: "int \<Rightarrow> string" where
  "Itoa i = (if i < 0 then CHR ''-'' # utoa (- i) else utoa i)"

text \<open>
  \<open>strconv.ParseUint(s, 10, 64)\<close>: the digits are read from left to right. A byte that is
  no digit is a syntax error with the value 0; a digit at which the value leaves the range
  of \<open>uint64\<close> is a range error with the greatest \<open>uint64\<close>, whatever follows it.
\<close>

definition is_digit :: "char \<Rightarrow> bool" where
  "is_digit c = ((of_char (CHR ''0'') :: int) \<le> of_char c \<and> (of_char c :: int) \<le> of_char (CHR ''9''))"

definition digit_val :: "char \<Rightarrow> int" where
  "digit_val c = of_char c - of_char (CHR ''0'')"

definition ErrSyntax :: error where
  "ErrSyntax = Error ''invalid syntax''"

definition ErrRange :: error where
  "ErrRange = Error ''value out of range''"

definition maxUint64 :: int where
  "maxUint64 = 18446744073709551615"

fun parse_digits :: "int \<Rightarrow> string \<Rightarrow> int \<times> error option" where
  "parse_digits n [] = (n, None)"
| "parse_digits n (c # cs) =
     (if \<not> is_digit c then (0, Some ErrSyntax)
      else if n \<ge> maxUint64 div 10 + 1 then (maxUint64, Some ErrRange)
      else if n * 10 + digit_val c > maxUint64 then (maxUint64, Some ErrRange)
      else parse_digits (n * 10 + digit_val c) cs)"

definition ParseUint :: "string \<Rightarrow> int \<times> error option" where
  "ParseUint s = (if s = [] then (0, Some ErrSyntax) else parse_digits 0 s)"

text \<open>
  \<open>strconv.ParseInt(s, 10, 0)\<close> on a 64-bit platform: an optional sign, then
  \<open>ParseUint\<close>. A syntax error gives 0; a value out of the range of \<open>int64\<close> gives the
  nearest bound with a range error. \<open>strconv.Atoi\<close> returns the same value and error.
\<close>

definition ParseInt :: "string \<Rightarrow> int \<times> error option" where
  "ParseInt s =
     (if s = [] then (0, Some ErrSyntax)
      else (let neg = (hd s = CHR ''-'');
                s1 = (if hd s = CHR ''+'' \<or> hd s = CHR ''-'' then tl s else s)
            in case ParseUint s1 of
                 (un, err) \<Rightarrow>
                   if err \<noteq> None \<and> err \<noteq> Some ErrRange then (0, err)
                   else if \<not> neg \<and> un \<ge> 9223372036854775808
                     then (9223372036854775807, Some ErrRange)
                   else if neg \<and> un > 9223372036854775808
                     then (- 9223372036854775808, Some ErrRange)
                   else (if neg then - un else un, None)))"

definition Atoi :: "string \<Rightarrow> int \<times> error option" where
  "Atoi s = ParseInt s"

section \<open>The store client as the service code sees it\<close>

text \<open>
  A node of the store (\<open>client.Node\<close>): its key, whether it is a directory, its value and
  its children. A response (\<open>client.Response\<close>) carries the action, the node and the
  index of the store when the response was produced. Its node is a pointer: \<open>Response\<close>
  is a response whose node is there, which is what a successful \<open>kapi.Get\<close> returns;
  \<open>WatchResponse\<close> is a response as \<open>watcher.Next\<close> hands it back and as it travels on
  the watch channel, whose node pointer can be nil (\<open>None\<close>).
\<close>

datatype etcd_node = EtcdNode (Key: string) (Dir: bool) (Val: string) (Nodes: "etcd_node list")

record 'n response_of =
  Action :: string
  Node :: 'n
  Index :: "64 word"

type_synonym Response = "etcd_node response_of"

type_synonym WatchResponse = "etcd_node option response_of"

text \<open>
  What a read observes: the index of the store at the time of the read, and for every key
  either an error or the node found there. \<open>kapi.Get\<close> returns the error, or a response
  stamped with the index of the store.
\<close>

record store =
  store_index :: "64 word"
  store_get :: "string \<Rightarrow> error + etcd_node"

definition kapi_Get :: "store \<Rightarrow> string \<Rightarrow> error + Response" where
  "kapi_Get st key =
     (case store_get st key of
        Inl err \<Rightarrow> Inl err
      | Inr n \<Rightarrow> Inr \<lparr>Action = ''get'', Node = n, Index = store_index st\<rparr>)"

section \<open>Service records and watch events\<close>

record ServiceInfo =
  ServiceName :: string
  HostAddr :: string
  Port :: int

datatype EventType = WatchServiceEventAdd | WatchServiceEventDel | WatchServiceEventError

record WatchServiceEvent =
  EventType :: EventType
  EventInfo :: ServiceInfo

text \<open>The zero value of \<open>ServiceInfo\<close>, which an event built without one carries.\<close>

definition zeroServiceInfo :: ServiceInfo where
  "zeroServiceInfo = \<lparr>ServiceName = [], HostAddr = [], Port = 0\<rparr>"

definition serviceTTL :: nat where
  "serviceTTL = 30"

section \<open>Reading the current state of a service\<close>

text \<open>
  The loop of \<open>getServiceState\<close> over the children of the directory: each value is
  decoded by \<open>json.Unmarshal\<close> (a parameter here), and the first failure ends the read.
\<close>

fun parseNodes :: "(string \<Rightarrow> error + ServiceInfo) \<Rightarrow> etcd_node list \<Rightarrow> ServiceInfo list
    \<Rightarrow> error + ServiceInfo list" where
  "parseNodes unmarshal [] srvcList = Inr srvcList"
| "parseNodes unmarshal (n # ns) srvcList =
     (case unmarshal (Val n) of
        Inl err \<Rightarrow> Inl err
      | Inr respSrvc \<Rightarrow> parseNodes unmarshal ns (srvcList @ [respSrvc]))"

definition getServiceState :: "store \<Rightarrow> (string \<Rightarrow> error + ServiceInfo) \<Rightarrow> string
    \<Rightarrow> 64 word \<times> ServiceInfo list \<times> error option" where
  "getServiceState st unmarshal key =
     (case kapi_Get st key of
        Inl err \<Rightarrow>
          if Contains (Error_msg err) ''Key not found'' then (0, [], None)
          else (0, [], Some err)
      | Inr resp \<Rightarrow>
          if \<not> Dir (Node resp) then (0, [], Some (Error ''Invalid Response from etcd''))
          else (case parseNodes unmarshal (Nodes (Node resp)) [] of
                  Inl err \<Rightarrow> (0, [], Some err)
                | Inr srvcList \<Rightarrow> (Index resp + 1, srvcList, None)))"

definition GetService :: "store \<Rightarrow> (string \<Rightarrow> error + ServiceInfo) \<Rightarrow> string
    \<Rightarrow> ServiceInfo list \<times> error option" where
  "GetService st unmarshal name =
     (let keyName = ''/contiv.io/service/'' @ name @ ''/''
      in snd (getServiceState st unmarshal keyName))"

text \<open>
  \<open>initServiceState\<close>: the read, then one add event per service sent on the event
  channel. The result is the index, the events sent and the error.
\<close>

definition initServiceState :: "store \<Rightarrow> (string \<Rightarrow> error + ServiceInfo) \<Rightarrow> string
    \<Rightarrow> 64 word \<times> WatchServiceEvent list \<times> error option" where
  "initServiceState st unmarshal key =
     (case getServiceState st unmarshal key of
        (mIndex, srvcList, Some err) \<Rightarrow> (mIndex, [], Some err)
      | (mIndex, srvcList, None) \<Rightarrow>
          (mIndex,
           map (\<lambda>srvInfo. \<lparr>EventType = WatchServiceEventAdd, EventInfo = srvInfo\<rparr>) srvcList,
           None))"

section \<open>The two goroutines of a watch\<close>

text \<open>
  How a goroutine ends: \<open>log.Fatalf\<close> ends the whole process, a nil dereference or an
  index out of range panics, \<open>return\<close> ends the goroutine alone, and a goroutine whose
  inputs have run out is still blocked on the next one.
\<close>

datatype thread_exit = ProcessExit | Panicked | ThreadReturned | ThreadBlocked

definition ErrClusterUnavailable :: error where
  "ErrClusterUnavailable = Error ''client: etcd cluster is unavailable or misconfigured''"

text \<open>
  The loop of the watch goroutine over the successive results of \<open>watcher.Next\<close>: a
  response is sent on to the watch channel, an error of either kind ends the goroutine.
  The result is the responses sent on and how the goroutine ended.
\<close>

fun nextLoop :: "(error + WatchResponse) list \<Rightarrow> WatchResponse list \<times> thread_exit" where
  "nextLoop [] = ([], ThreadBlocked)"
| "nextLoop (Inl err # rs) =
     (if Error_msg err = Error_msg ErrClusterUnavailable then ([], ThreadReturned)
      else ([], ThreadReturned))"
| "nextLoop (Inr etcdRsp # rs) = (etcdRsp # fst (nextLoop rs), snd (nextLoop rs))"

text \<open>
  What the watch goroutine meets: the store at the time of the initial read, the decoder
  of values, whether \<open>kapi.Watcher\<close> hands back a watcher, and the successive results
  of \<open>watcher.Next\<close>.
\<close>

record watch_env =
  we_store :: store
  we_unmarshal :: "string \<Rightarrow> error + ServiceInfo"
  we_watcher :: bool
  we_next :: "(error + WatchResponse) list"

text \<open>
  What the watch goroutine did: the events it sent on the event channel, the index
  after which it opened a watcher (\<open>None\<close> when it opened none), the responses it sent on
  to the watch channel, and how it ended.
\<close>

record watch_run =
  wr_events :: "WatchServiceEvent list"
  wr_watch :: "64 word option"
  wr_forwarded :: "WatchResponse list"
  wr_exit :: thread_exit

definition watchThread :: "watch_env \<Rightarrow> string \<Rightarrow> watch_run" where
  "watchThread env keyName =
     (case initServiceState (we_store env) (we_unmarshal env) keyName of
        (watchIndex, evs, Some err) \<Rightarrow>
          \<lparr>wr_events = evs, wr_watch = None, wr_forwarded = [], wr_exit = ProcessExit\<rparr>
      | (watchIndex, evs, None) \<Rightarrow>
          if \<not> we_watcher env then
            \<lparr>wr_events = evs @ [\<lparr>EventType = WatchServiceEventError, EventInfo = zeroServiceInfo\<rparr>],
             wr_watch = Some watchIndex, wr_forwarded = [], wr_exit = Panicked\<rparr>
          else
            \<lparr>wr_events = evs, wr_watch = Some watchIndex,
             wr_forwarded = fst (nextLoop (we_next env)),
             wr_exit = snd (nextLoop (we_next env))\<rparr>)"

text \<open>Indexing a slice panics out of range; reading a field through a nil pointer panics.\<close>

datatype panic = IndexOutOfRange | NilDereference

definition at :: "'a list \<Rightarrow> nat \<Rightarrow> panic + 'a" where
  "at xs i = (if i < length xs then Inr (xs ! i) else Inl IndexOutOfRange)"

text \<open>
  The body of the handler goroutine for one response read from the watch channel: the
  events it sends on the event channel, or the panic it dies of. The key is read through
  the node pointer with no test, so a response without a node panics. A \<open>break\<close> leaves
  the \<open>select\<close> with nothing sent.
\<close>

definition handleWatchResp :: "WatchResponse \<Rightarrow> panic + WatchServiceEvent list" where
  "handleWatchResp watchResp =
     (case Node watchResp of
        None \<Rightarrow> Inl NilDereference
      | Some node \<Rightarrow>
     (let srvKey = TrimPrefix (Key node) ''/contiv.io/service/'';
          parts = Split srvKey (CHR ''/'')
      in if length parts < 2 then Inr []
         else case at parts 0 of Inl p \<Rightarrow> Inl p | Inr srvName \<Rightarrow>
              case at parts 1 of Inl p \<Rightarrow> Inl p | Inr hostAddr \<Rightarrow>
              (let parts2 = Split hostAddr (CHR '':'')
               in if length parts2 \<noteq> 2 then Inr []
                  else case at parts2 0 of Inl p \<Rightarrow> Inl p | Inr hostAddr2 \<Rightarrow>
                       case at parts2 1 of Inl p \<Rightarrow> Inl p | Inr portStr \<Rightarrow>
                       (let portNum = fst (Atoi portStr);
                            srvInfo = \<lparr>ServiceName = srvName, HostAddr = hostAddr2, Port = portNum\<rparr>
                        in if Action watchResp = ''set'' then
                             Inr [\<lparr>EventType = WatchServiceEventAdd, EventInfo = srvInfo\<rparr>]
                           else if Action watchResp = ''delete'' \<or> Action watchResp = ''expire'' then
                             Inr [\<lparr>EventType = WatchServiceEventDel, EventInfo = srvInfo\<rparr>]
                           else Inr []))))"

text \<open>
  The handler goroutine: each round of its \<open>select\<close> receives either a response from the
  watch channel or a value from the stop channel. A true stop request cancels the watch
  and ends the goroutine; a false one is dropped.
\<close>

datatype select_msg = WatchResp WatchResponse | StopReq bool

fun eventLoop :: "select_msg list \<Rightarrow> WatchServiceEvent list \<times> thread_exit" where
  "eventLoop [] = ([], ThreadBlocked)"
| "eventLoop (WatchResp watchResp # ms) =
     (case handleWatchResp watchResp of
        Inl p \<Rightarrow> ([], Panicked)
      | Inr evs \<Rightarrow> (evs @ fst (eventLoop ms), snd (eventLoop ms)))"
| "eventLoop (StopReq stopReq # ms) =
     (if stopReq then ([], ThreadReturned) else eventLoop ms)"

text \<open>
  \<open>WatchService\<close> starts the two goroutines and returns \<open>nil\<close>: its result is the error
  it returns together with the run of the watch goroutine it started.
\<close>

definition WatchService :: "watch_env \<Rightarrow> string \<Rightarrow> error option \<times> watch_run" where
  "WatchService env name =
     (let keyName = ''/contiv.io/service/'' @ name @ ''/''
      in (None, watchThread env keyName))"

section \<open>Registering and deregistering a service\<close>

text \<open>
  The calls the service code makes on the store, in the order it makes them.
\<close>

datatype store_call = StoreSet string string nat | StoreDelete string

text \<open>
  The record kept for a registered service. Its stop channel is named by the number it
  was given when it was made.
\<close>

record serviceState =
  st_ServiceName :: string
  st_HostAddr :: string
  st_Port :: int
  stopChan :: nat

text \<open>A refresh goroutine started by \<open>go refreshService(kapi, keyName, keyVal, stopChan)\<close>.\<close>

record refresher =
  rf_key :: string
  rf_val :: string
  rf_stop :: nat

text \<open>
  The state \<open>RegisterService\<close> and \<open>DeregisterService\<close> work on: the table
  \<open>serviceDb\<close> of the plugin, the values sent so far on every stop channel, the number of
  the next channel \<open>make\<close> hands out, the refresh goroutines started so far, and the calls
  made on the store so far.
\<close>

record etcdPlugin =
  serviceDb :: "string \<rightharpoonup> serviceState"
  chans :: "nat \<Rightarrow> bool list"
  next_chan :: nat
  refreshers :: "refresher list"
  store_calls :: "store_call list"

text \<open>The plugin after \<open>Init\<close>: an empty table, nothing started, nothing sent.\<close>

definition Init :: etcdPlugin where
  "Init = \<lparr>serviceDb = Map.empty, chans = (\<lambda>c. []), next_chan = 0, refreshers = [],
           store_calls = []\<rparr>"

definition serviceKey :: "ServiceInfo \<Rightarrow> string" where
  "serviceKey serviceInfo =
     ''/contiv.io/service/'' @ ServiceName serviceInfo @ ''/'' @
     HostAddr serviceInfo @ '':'' @ Itoa (Port serviceInfo)"

text \<open>
  \<open>DeregisterService\<close>. The last parameter is what the store answers to the delete
  (\<open>None\<close> for success).
\<close>

definition DeregisterService :: "etcdPlugin \<Rightarrow> ServiceInfo \<Rightarrow> error option
    \<Rightarrow> etcdPlugin \<times> error option" where
  "DeregisterService ep serviceInfo delete_reply =
     (let keyName = serviceKey serviceInfo
      in case serviceDb ep keyName of
           None \<Rightarrow> (ep, Some (Error ''Service not found''))
         | Some srvState \<Rightarrow>
             (ep\<lparr>chans := (chans ep)(stopChan srvState := chans ep (stopChan srvState) @ [True]),
                 serviceDb := (serviceDb ep)(keyName := None),
                 store_calls := store_calls ep @ [StoreDelete keyName]\<rparr>,
              delete_reply))"

text \<open>
  What \<open>RegisterService\<close> meets: the result of \<open>json.Marshal\<close>, and what the store
  answers to the delete of a previous registration and to the set.
\<close>

record replies =
  marshal_reply :: "error + string"
  delete_reply :: "error option"
  set_reply :: "error option"

definition RegisterService :: "etcdPlugin \<Rightarrow> ServiceInfo \<Rightarrow> replies
    \<Rightarrow> etcdPlugin \<times> error option" where
  "RegisterService ep serviceInfo r =
     (let keyName = serviceKey serviceInfo;
          ep1 = (if serviceDb ep keyName \<noteq> None
                 then fst (DeregisterService ep serviceInfo (delete_reply r)) else ep)
      in case marshal_reply r of
           Inl err \<Rightarrow> (ep1, Some err)
         | Inr jsonVal \<Rightarrow>
             (let ep2 = ep1\<lparr>store_calls := store_calls ep1 @ [StoreSet keyName jsonVal serviceTTL]\<rparr>
              in case set_reply r of
                   Some err \<Rightarrow> (ep2, Some err)
                 | None \<Rightarrow>
                     (let c = next_chan ep2
                      in (ep2\<lparr>next_chan := Suc c,
                              chans := (chans ep2)(c := []),
                              refreshers := refreshers ep2 @
                                [\<lparr>rf_key = keyName, rf_val = jsonVal, rf_stop = c\<rparr>],
                              serviceDb := (serviceDb ep2)(keyName \<mapsto>
                                \<lparr>st_ServiceName = ServiceName serviceInfo,
                                 st_HostAddr = HostAddr serviceInfo,
                                 st_Port = Port serviceInfo,
                                 stopChan = c\<rparr>)\<rparr>,
                          None))))"

text \<open>A sequence of calls on the plugin, each with what it meets.\<close>

datatype call = Register ServiceInfo replies | Deregister ServiceInfo "error option"

fun step :: "etcdPlugin \<Rightarrow> call \<Rightarrow> etcdPlugin" where
  "step ep (Register serviceInfo r) = fst (RegisterService ep serviceInfo r)"
| "step ep (Deregister serviceInfo d) = fst (DeregisterService ep serviceInfo d)"

definition run :: "call list \<Rightarrow> etcdPlugin" where
  "run cs = foldl step Init cs"

text \<open>
  A refresh goroutine is unsignalled while nothing has been sent on its stop channel. One
  that has been sent the stop value is not yet ended by that: it runs on until its loop
  next reaches its \<open>select\<close> (\<open>refreshService\<close> and \<open>loopRun\<close> below).
\<close>

definition unsignalled :: "etcdPlugin \<Rightarrow> refresher \<Rightarrow> bool" where
  "unsignalled ep g = (chans ep (rf_stop g) = [])"

definition unsignalledRefreshers :: "etcdPlugin \<Rightarrow> string \<Rightarrow> refresher list" where
  "unsignalledRefreshers ep keyName =
     filter (\<lambda>g. rf_key g = keyName \<and> unsignalled ep g) (refreshers ep)"

section \<open>The refresh goroutine\<close>

text \<open>
  Time is counted in nanoseconds, as \<open>time.Duration\<close> does. The loop waits
  \<open>time.Second * time.Duration(serviceTTL/3)\<close> in each round.
\<close>

definition Second :: nat where
  "Second = 1000000000"

definition refreshInterval :: nat where
  "refreshInterval = Second * (serviceTTL div 3)"

text \<open>
  What one round of the loop meets: which case \<open>select\<close> takes when the timer and the
  stop channel are ready at the same instant, and for the set and for its retry how long
  the call takes and what the store answers.
\<close>

record cycle =
  pick_timer :: bool
  set1 :: "nat \<times> error option"
  set2 :: "nat \<times> error option"

text \<open>
  The \<open>select\<close> of a round entered with the timer due at \<open>deadline\<close>: the stop case is
  taken when a value was sent on the stop channel before the timer is due, or at the very
  instant it is due and \<open>select\<close> picks that case. \<open>stop\<close> is the time at which the value
  is sent, \<open>None\<close> when none ever is.
\<close>

definition stopTaken :: "nat option \<Rightarrow> nat \<Rightarrow> bool \<Rightarrow> bool" where
  "stopTaken stop deadline pick =
     (case stop of None \<Rightarrow> False | Some t \<Rightarrow> t < deadline \<or> (t = deadline \<and> \<not> pick))"

text \<open>
  One renewal: when the round entered its \<open>select\<close>, when its timer fired, the calls it
  made on the store, each with the time at which it was issued, and when it ended.
\<close>

record renewal =
  rn_start :: nat
  rn_fired :: nat
  rn_writes :: "(nat \<times> store_call) list"
  rn_end :: nat

text \<open>The timer case of the loop, entered at \<open>now\<close>: the set, and its retry when it failed.\<close>

definition renew :: "string \<Rightarrow> string \<Rightarrow> nat \<Rightarrow> cycle \<Rightarrow> renewal" where
  "renew keyName keyVal now c =
     (let fired = now + refreshInterval
      in case snd (set1 c) of
           None \<Rightarrow>
             \<lparr>rn_start = now, rn_fired = fired,
              rn_writes = [(fired, StoreSet keyName keyVal serviceTTL)],
              rn_end = fired + fst (set1 c)\<rparr>
         | Some err \<Rightarrow>
             \<lparr>rn_start = now, rn_fired = fired,
              rn_writes = [(fired, StoreSet keyName keyVal serviceTTL),
                           (fired + fst (set1 c), StoreSet keyName keyVal serviceTTL)],
              rn_end = fired + fst (set1 c) + fst (set2 c)\<rparr>)"

text \<open>
  How the loop stands when its inputs have run out: it has returned at some time, or it is
  still in the \<open>select\<close> it entered at some time.
\<close>

datatype refresh_exit = Returned nat | Waiting nat

record refresh_run =
  rr_cycles :: "renewal list"
  rr_exit :: refresh_exit

fun refreshService :: "string \<Rightarrow> string \<Rightarrow> nat option \<Rightarrow> nat \<Rightarrow> cycle list \<Rightarrow> refresh_run" where
  "refreshService keyName keyVal stop now [] = \<lparr>rr_cycles = [], rr_exit = Waiting now\<rparr>"
| "refreshService keyName keyVal stop now (c # cs) =
     (if stopTaken stop (now + refreshInterval) (pick_timer c) then
        \<lparr>rr_cycles = [], rr_exit = Returned (max now (case stop of None \<Rightarrow> now | Some t \<Rightarrow> t))\<rparr>
      else
        \<lparr>rr_cycles = renew keyName keyVal now c #
           rr_cycles (refreshService keyName keyVal stop (rn_end (renew keyName keyVal now c)) cs),
         rr_exit =
           rr_exit (refreshService keyName keyVal stop (rn_end (renew keyName keyVal now c)) cs)\<rparr>)"

text \<open>
  The run of a refresh goroutine that \<open>RegisterService\<close> started at time \<open>started\<close>, when
  the stop value is sent on its channel at time \<open>stop\<close> (\<open>None\<close> when it never is); and
  the times at which a run issued its calls on the store.
\<close>

definition loopRun :: "refresher \<Rightarrow> nat option \<Rightarrow> nat \<Rightarrow> cycle list \<Rightarrow> refresh_run" where
  "loopRun g stop started cs = refreshService (rf_key g) (rf_val g) stop started cs"

definition writeTimes :: "refresh_run \<Rightarrow> nat list" where
  "writeTimes r = map fst (concat (map rn_writes (rr_cycles r)))"

section \<open>The shape of a service key\<close>

text \<open>
  The two tests the handler applies to the key of a response that has a node, and the
  service it reads from a key that passes them: the key without the service prefix has at
  least two segments between slashes, and the second one splits at colons into exactly
  two parts. A response without a node has no key: it has no segments and does not parse.
\<close>

definition hasNode :: "WatchResponse \<Rightarrow> bool" where
  "hasNode watchResp = (Node watchResp \<noteq> None)"

definition keyParts :: "WatchResponse \<Rightarrow> string list" where
  "keyParts watchResp =
     (case Node watchResp of
        None \<Rightarrow> []
      | Some node \<Rightarrow> Split (TrimPrefix (Key node) ''/contiv.io/service/'') (CHR ''/''))"

definition hostParts :: "WatchResponse \<Rightarrow> string list" where
  "hostParts watchResp = Split (keyParts watchResp ! 1) (CHR '':'')"

definition keyParses :: "WatchResponse \<Rightarrow> bool" where
  "keyParses watchResp =
     (hasNode watchResp \<and> 2 \<le> length (keyParts watchResp) \<and> length (hostParts watchResp) = 2)"

text \<open>A message of the handler's \<open>select\<close> that is not a response without a node.\<close>

fun carriesNode :: "select_msg \<Rightarrow> bool" where
  "carriesNode (WatchResp watchResp) = hasNode watchResp"
| "carriesNode (StopReq stopReq) = True"

definition keyInfo :: "WatchResponse \<Rightarrow> ServiceInfo" where
  "keyInfo watchResp =
     \<lparr>ServiceName = keyParts watchResp ! 0,
      HostAddr = hostParts watchResp ! 0,
      Port = fst (Atoi (hostParts watchResp ! 1))\<rparr>"

definition addEvent :: "ServiceInfo \<Rightarrow> WatchServiceEvent" where
  "addEvent srvInfo = \<lparr>EventType = WatchServiceEventAdd, EventInfo = srvInfo\<rparr>"

definition delEvent :: "ServiceInfo \<Rightarrow> WatchServiceEvent" where
  "delEvent srvInfo = \<lparr>EventType = WatchServiceEventDel, EventInfo = srvInfo\<rparr>"

definition errorEvents :: "WatchServiceEvent list \<Rightarrow> WatchServiceEvent list" where
  "errorEvents evs = filter (\<lambda>e. EventType e = WatchServiceEventError) evs"

section \<open>Concrete stores, responses and services\<close>

text \<open>A store at index 5 that has no key under the prefix read.\<close>

definition missingStore :: store where
  "missingStore =
     \<lparr>store_index = 5,
      store_get = (\<lambda>key. Inl (Error ''100: Key not found (/contiv.io/service/web) [5]''))\<rparr>"

text \<open>A store at index 5 that cannot be reached.\<close>

definition downStore :: store where
  "downStore = \<lparr>store_index = 5, store_get = (\<lambda>key. Inl (Error ''connection refused''))\<rparr>"

text \<open>A store at index 5 with an empty directory under every key.\<close>

definition emptyDirStore :: store where
  "emptyDirStore = \<lparr>store_index = 5, store_get = (\<lambda>key. Inr (EtcdNode key True [] []))\<rparr>"

definition noDecode :: "string \<Rightarrow> error + ServiceInfo" where
  "noDecode v = Inl (Error ''unexpected end of JSON input'')"

definition downEnv :: watch_env where
  "downEnv = \<lparr>we_store = downStore, we_unmarshal = noDecode, we_watcher = True, we_next = []\<rparr>"

text \<open>Raw responses: a well-formed key, a port that is no number, a key one level too deep,
  a key with no host segment.\<close>

definition rawEvent :: "string \<Rightarrow> string \<Rightarrow> WatchResponse" where
  "rawEvent action key = \<lparr>Action = action, Node = Some (EtcdNode key False [] []), Index = 7\<rparr>"

text \<open>A raw response without a node.\<close>

definition nilNodeEvent :: WatchResponse where
  "nilNodeEvent = \<lparr>Action = ''set'', Node = None, Index = 7\<rparr>"

definition webInfo :: ServiceInfo where
  "webInfo = \<lparr>ServiceName = ''web'', HostAddr = ''10.0.0.5'', Port = 8080\<rparr>"

text \<open>What \<open>RegisterService\<close> can meet: a payload that does not serialize, a store that
  refuses the set, and a store that accepts everything.\<close>

definition marshalFails :: replies where
  "marshalFails =
     \<lparr>marshal_reply = Inl (Error ''json: unsupported value''), delete_reply = None, set_reply = None\<rparr>"

definition setFails :: replies where
  "setFails =
     \<lparr>marshal_reply = Inr ''{web 10.0.0.5 8080}'', delete_reply = None,
      set_reply = Some (Error ''connection refused'')\<rparr>"

definition allOk :: replies where
  "allOk = \<lparr>marshal_reply = Inr ''{web 10.0.0.5 8080}'', delete_reply = None, set_reply = None\<rparr>"

section \<open>The invariant of the registration table\<close>

text \<open>
  What holds of the plugin after any sequence of calls: every record of the table names a
  channel already made, on which nothing has been sent, and a refresh goroutine started
  for its key listens on that channel; two records never share a channel; every refresh
  goroutine listens on a channel already made, and one on whose channel nothing has been
  sent is the goroutine of the record of its key; no two goroutines share a channel.
\<close>

definition table_ok :: "etcdPlugin \<Rightarrow> bool" where
  "table_ok ep =
     (\<forall>k st. serviceDb ep k = Some st \<longrightarrow>
        stopChan st < next_chan ep \<and> chans ep (stopChan st) = [] \<and>
        (\<exists>g \<in> set (refreshers ep). rf_key g = k \<and> rf_stop g = stopChan st))"

definition table_inj :: "etcdPlugin \<Rightarrow> bool" where
  "table_inj ep =
     (\<forall>k k' st st'. serviceDb ep k = Some st \<and> serviceDb ep k' = Some st' \<and>
        stopChan st = stopChan st' \<longrightarrow> k = k')"

definition refreshers_ok :: "etcdPlugin \<Rightarrow> bool" where
  "refreshers_ok ep =
     (\<forall>g \<in> set (refreshers ep).
        rf_stop g < next_chan ep \<and>
        (chans ep (rf_stop g) = [] \<longrightarrow>
           (\<exists>st. serviceDb ep (rf_key g) = Some st \<and> stopChan st = rf_stop g)))"

definition plugin_inv :: "etcdPlugin \<Rightarrow> bool" where
  "plugin_inv ep =
     (table_ok ep \<and> table_inj ep \<and> refreshers_ok ep \<and> distinct (map rf_stop (refreshers ep)))"

section \<open>Concrete runs of the refresh goroutine\<close>

text \<open>
  Rounds in which the store answers after one second: with success, and with a failure of
  the first set followed by a successful retry; and a round in which the store takes sixty
  seconds to accept the set.
\<close>

definition okCycle :: cycle where
  "okCycle = \<lparr>pick_timer = True, set1 = (1000000000, None), set2 = (1000000000, None)\<rparr>"

definition failCycle :: cycle where
  "failCycle =
     \<lparr>pick_timer = True, set1 = (1000000000, Some (Error ''connection refused'')),
      set2 = (1000000000, None)\<rparr>"

definition slowCycle :: cycle where
  "slowCycle = \<lparr>pick_timer = True, set1 = (60000000000, None), set2 = (1000000000, None)\<rparr>"


definition slowRun :: refresh_run where
  "slowRun =
     refreshService ''/contiv.io/service/web/10.0.0.5:8080'' ''{web 10.0.0.5 8080}''
       (Some 10500000000) 0 [slowCycle, okCycle]"

text \<open>
  The two refresh goroutines that registering \<open>webInfo\<close> twice starts, and the run of the
  first one when it was started at time 0, its first set fails, and the second
  registration sends it the stop value at 10.5 seconds.
\<close>

definition oldLoop :: refresher where
  "oldLoop = \<lparr>rf_key = serviceKey webInfo, rf_val = ''{web 10.0.0.5 8080}'', rf_stop = 0\<rparr>"

definition newLoop :: refresher where
  "newLoop = \<lparr>rf_key = serviceKey webInfo, rf_val = ''{web 10.0.0.5 8080}'', rf_stop = 1\<rparr>"

definition oldLoopRun :: refresh_run where
  "oldLoopRun = loopRun oldLoop (Some 10500000000) 0 [failCycle, okCycle]"

text \<open>Two identities with the same key.\<close>

definition slashName :: ServiceInfo where
  "slashName = \<lparr>ServiceName = ''a/b'', HostAddr = ''c'', Port = 1\<rparr>"

definition slashHost :: ServiceInfo where
  "slashHost = \<lparr>ServiceName = ''a'', HostAddr = ''b/c'', Port = 1\<rparr>"

definition slashOk :: replies where
  "slashOk = \<lparr>marshal_reply = Inr ''{a/b c 1}'', delete_reply = None, set_reply = None\<rparr>"

section \<open>Facts about the snapshot read\<close>

lemma Contains_key_not_found:
  "Contains ''100: Key not found (/contiv.io/service/web) [5]'' ''Key not found''"
  by code_simp

lemma not_Contains_refused: "\<not> Contains ''connection refused'' ''Key not found''"
  by code_simp

lemma getServiceState_missingStore: "getServiceState missingStore um key = (0, [], None)"
  by (simp add: getServiceState_def kapi_Get_def missingStore_def Contains_key_not_found)

lemma getServiceState_emptyDirStore: "getServiceState emptyDirStore um key = (6, [], None)"
  by (simp add: getServiceState_def kapi_Get_def emptyDirStore_def)

lemma getServiceState_downStore:
  "getServiceState downStore um key = (0, [], Some (Error ''connection refused''))"
  by (simp add: getServiceState_def kapi_Get_def downStore_def not_Contains_refused)

lemma initServiceState_downStore:
  "initServiceState downStore um key = (0, [], Some (Error ''connection refused''))"
  by (simp add: initServiceState_def getServiceState_downStore)

lemma initServiceState_error_events:
  "initServiceState st um key = (idx, evs, Some err) \<Longrightarrow> evs = []"
  by (auto simp: initServiceState_def split: prod.splits option.splits)

text \<open>
  C2, as stated, fails: on a store at index 5 whose read answers "Key not found", the read
  succeeds with an empty list, but the index it returns is 0, not the index of the store.
\<close>

theorem key_not_found_index_not_current:
  "getServiceState missingStore noDecode ''/contiv.io/service/web/'' = (0, [], None)
   \<and> fst (getServiceState missingStore noDecode ''/contiv.io/service/web/'') \<noteq> store_index missingStore"
  by (simp add: getServiceState_missingStore) (simp add: missingStore_def)

text \<open>
  C2, amended: when the store answers the recursive read with an error whose text contains
  "Key not found", the read reports no error and returns an empty list of instances
  together with the index 0; \<open>GetService\<close> then returns the empty list and no error.
\<close>

theorem key_not_found_is_empty_state:
  assumes "store_get st key = Inl err" and "Contains (Error_msg err) ''Key not found''"
  shows "getServiceState st unmarshal key = (0, [], None)"
  using assms by (simp add: getServiceState_def kapi_Get_def)

theorem key_not_found_is_empty_state_witness:
  "store_get missingStore ''/contiv.io/service/web/''
     = Inl (Error ''100: Key not found (/contiv.io/service/web) [5]'')
   \<and> Contains (Error_msg (Error ''100: Key not found (/contiv.io/service/web) [5]'')) ''Key not found''
   \<and> getServiceState missingStore noDecode ''/contiv.io/service/web/'' = (0, [], None)"
proof -
  have g: "store_get missingStore ''/contiv.io/service/web/''
     = Inl (Error ''100: Key not found (/contiv.io/service/web) [5]'')"
    by (simp add: missingStore_def)
  have c: "Contains (Error_msg (Error ''100: Key not found (/contiv.io/service/web) [5]'')) ''Key not found''"
    by (simp add: Contains_key_not_found)
  show ?thesis using g c key_not_found_is_empty_state [OF g c, of noDecode] by simp
qed

text \<open>
  C8, as stated, fails: the read of a store at index 5 that answers "Key not found"
  succeeds (it returns no error), and the index it returns is 0, not 5 + 1.
\<close>

theorem resume_index_zero_on_key_not_found:
  "snd (snd (getServiceState missingStore noDecode ''/contiv.io/service/web/'')) = None
   \<and> fst (getServiceState missingStore noDecode ''/contiv.io/service/web/'')
       \<noteq> store_index missingStore + 1"
  by (simp add: getServiceState_missingStore) (simp add: missingStore_def)

text \<open>
  C8, amended: for every read that returns no error, the index returned is the index of the
  store at the time of the read plus one (in 64-bit arithmetic) when the store answered the
  read with a node, and 0 when it answered with an error (the "Key not found" case).
\<close>

theorem resume_index_after_read:
  assumes "getServiceState st unmarshal key = (watchIndex, srvcList, None)"
  shows "watchIndex = (case store_get st key of Inl err \<Rightarrow> 0 | Inr n \<Rightarrow> store_index st + 1)"
  using assms
  by (auto simp: getServiceState_def kapi_Get_def split: sum.splits if_splits)

theorem resume_index_after_read_witness:
  "getServiceState emptyDirStore noDecode ''/contiv.io/service/web/'' = (6, [], None)
   \<and> (6 :: 64 word) = store_index emptyDirStore + 1"
proof -
  have g: "getServiceState emptyDirStore noDecode ''/contiv.io/service/web/'' = (6, [], None)"
    by (rule getServiceState_emptyDirStore)
  have "(6 :: 64 word) = (case store_get emptyDirStore ''/contiv.io/service/web/'' of
           Inl err \<Rightarrow> 0 | Inr n \<Rightarrow> store_index emptyDirStore + 1)"
    using resume_index_after_read [OF g] .
  then have "(6 :: 64 word) = store_index emptyDirStore + 1"
    by (simp add: emptyDirStore_def)
  with g show ?thesis by simp
qed

section \<open>Facts about the watch goroutine\<close>

text \<open>
  C1, as stated, fails: when the initial read meets a store that cannot be reached, the
  watch goroutine sends no event at all on the event channel, so not exactly one error
  event, and the process exits.
\<close>

theorem snapshot_failure_sends_no_error_event:
  "snd (snd (initServiceState (we_store downEnv) (we_unmarshal downEnv) ''/contiv.io/service/web/''))
     = Some (Error ''connection refused'')
   \<and> length (errorEvents (wr_events (watchThread downEnv ''/contiv.io/service/web/''))) \<noteq> 1
   \<and> wr_exit (watchThread downEnv ''/contiv.io/service/web/'') = ProcessExit"
  by (simp add: watchThread_def downEnv_def initServiceState_downStore errorEvents_def)

text \<open>
  C1, amended: when loading the initial state fails, the watch goroutine ends the process
  with a fatal log: it sends nothing on the event channel, opens no watcher on the store
  and passes no response on to the handler.
\<close>

theorem snapshot_failure_exits_process:
  assumes "snd (snd (initServiceState (we_store env) (we_unmarshal env) keyName)) = Some err"
  shows "watchThread env keyName =
           \<lparr>wr_events = [], wr_watch = None, wr_forwarded = [], wr_exit = ProcessExit\<rparr>"
proof -
  obtain idx evs where i:
    "initServiceState (we_store env) (we_unmarshal env) keyName = (idx, evs, Some err)"
    using assms by (cases "initServiceState (we_store env) (we_unmarshal env) keyName") auto
  then have "evs = []" by (rule initServiceState_error_events)
  with i show ?thesis by (simp add: watchThread_def)
qed

theorem snapshot_failure_exits_process_witness:
  "snd (snd (initServiceState (we_store downEnv) (we_unmarshal downEnv) ''/contiv.io/service/web/''))
     = Some (Error ''connection refused'')
   \<and> watchThread downEnv ''/contiv.io/service/web/'' =
           \<lparr>wr_events = [], wr_watch = None, wr_forwarded = [], wr_exit = ProcessExit\<rparr>"
proof -
  have h: "snd (snd (initServiceState (we_store downEnv) (we_unmarshal downEnv) ''/contiv.io/service/web/''))
     = Some (Error ''connection refused'')"
    by (simp add: downEnv_def initServiceState_downStore)
  show ?thesis using h snapshot_failure_exits_process [OF h] by simp
qed

text \<open>
  C4, as stated, fails for \<open>WatchService\<close>: with a store that cannot be reached the
  initial read fails, and \<open>WatchService\<close> still returns no error.
\<close>

theorem WatchService_returns_nil_on_snapshot_failure:
  "snd (snd (initServiceState (we_store downEnv) (we_unmarshal downEnv) ''/contiv.io/service/web/''))
     = Some (Error ''connection refused'')
   \<and> fst (WatchService downEnv ''web'') = None"
  by (simp add: WatchService_def downEnv_def initServiceState_downStore)

text \<open>
  C4, amended: \<open>RegisterService\<close> returns the error of a failed serialization and the
  error of a failed initial write to its caller, and returns no error when both succeed;
  \<open>WatchService\<close> always returns no error, whatever the initial read meets.
\<close>

theorem setup_failures_returned:
  "(marshal_reply r = Inl err \<longrightarrow> snd (RegisterService ep serviceInfo r) = Some err)
   \<and> (marshal_reply r = Inr jsonVal \<and> set_reply r = Some err
        \<longrightarrow> snd (RegisterService ep serviceInfo r) = Some err)
   \<and> (marshal_reply r = Inr jsonVal \<and> set_reply r = None
        \<longrightarrow> snd (RegisterService ep serviceInfo r) = None)
   \<and> fst (WatchService env name) = None"
  by (simp add: RegisterService_def WatchService_def Let_def)

theorem setup_failures_returned_witness:
  "marshal_reply marshalFails = Inl (Error ''json: unsupported value'')
   \<and> snd (RegisterService Init webInfo marshalFails) = Some (Error ''json: unsupported value'')
   \<and> marshal_reply setFails = Inr ''{web 10.0.0.5 8080}''
   \<and> set_reply setFails = Some (Error ''connection refused'')
   \<and> snd (RegisterService Init webInfo setFails) = Some (Error ''connection refused'')
   \<and> marshal_reply allOk = Inr ''{web 10.0.0.5 8080}'' \<and> set_reply allOk = None
   \<and> snd (RegisterService Init webInfo allOk) = None
   \<and> fst (WatchService downEnv ''web'') = None"
  using setup_failures_returned [of marshalFails "Error ''json: unsupported value''" Init webInfo
      "''{web 10.0.0.5 8080}''" downEnv "''web''"]
    setup_failures_returned [of setFails "Error ''connection refused''" Init webInfo
      "''{web 10.0.0.5 8080}''" downEnv "''web''"]
    setup_failures_returned [of allOk "Error ''connection refused''" Init webInfo
      "''{web 10.0.0.5 8080}''" downEnv "''web''"]
  by (simp add: marshalFails_def setFails_def allOk_def)

section \<open>Facts about the handler goroutine\<close>

lemma handleWatchResp_nil:
  "\<not> hasNode watchResp \<Longrightarrow> handleWatchResp watchResp = Inl NilDereference"
  by (simp add: handleWatchResp_def hasNode_def)

lemma handleWatchResp_unparsed:
  "hasNode watchResp \<Longrightarrow> \<not> keyParses watchResp \<Longrightarrow> handleWatchResp watchResp = Inr []"
  by (auto simp: handleWatchResp_def keyParses_def keyParts_def hostParts_def hasNode_def
      Let_def at_def)

lemma handleWatchResp_parsed:
  "keyParses watchResp \<Longrightarrow>
   handleWatchResp watchResp =
     Inr (if Action watchResp = ''set'' then [addEvent (keyInfo watchResp)]
          else if Action watchResp = ''delete'' \<or> Action watchResp = ''expire''
          then [delEvent (keyInfo watchResp)] else [])"
  by (auto simp: handleWatchResp_def keyParses_def keyParts_def hostParts_def hasNode_def
      Let_def at_def keyInfo_def addEvent_def delEvent_def)

lemma keyParses_hasNode: "keyParses watchResp \<Longrightarrow> hasNode watchResp"
  by (simp add: keyParses_def)

lemma handleWatchResp_total:
  "hasNode watchResp \<Longrightarrow> \<exists>evs. handleWatchResp watchResp = Inr evs"
  by (cases "keyParses watchResp") (simp_all add: handleWatchResp_unparsed handleWatchResp_parsed)

lemma eventLoop_no_panic: "list_all carriesNode ms \<Longrightarrow> snd (eventLoop ms) \<noteq> Panicked"
proof (induction ms rule: eventLoop.induct)
  case 1
  then show ?case by simp
next
  case (2 watchResp ms)
  then have "hasNode watchResp" by simp
  then obtain evs where "handleWatchResp watchResp = Inr evs"
    using handleWatchResp_total by blast
  with 2 show ?case by simp
next
  case (3 stopReq ms)
  then show ?case by simp
qed

lemma eventLoop_nil_panics:
  "\<not> hasNode watchResp \<Longrightarrow> eventLoop (WatchResp watchResp # ms) = ([], Panicked)"
  by (simp add: handleWatchResp_nil)

lemma hasNode_rawEvent: "hasNode (rawEvent a k)"
  by (simp add: hasNode_def rawEvent_def)

lemma Action_rawEvent: "Action (rawEvent a k) = a"
  by (simp add: rawEvent_def)

lemma parses_http: "keyParses (rawEvent ''set'' ''/contiv.io/service/web/10.0.0.5:http'')"
  by code_simp

lemma info_http:
  "keyInfo (rawEvent ''set'' ''/contiv.io/service/web/10.0.0.5:http'')
     = \<lparr>ServiceName = ''web'', HostAddr = ''10.0.0.5'', Port = 0\<rparr>"
  by code_simp

lemma parses_deep: "keyParses (rawEvent ''set'' ''/contiv.io/service/web/10.0.0.5:80/extra'')"
  by code_simp

lemma info_deep:
  "keyInfo (rawEvent ''set'' ''/contiv.io/service/web/10.0.0.5:80/extra'')
     = \<lparr>ServiceName = ''web'', HostAddr = ''10.0.0.5'', Port = 80\<rparr>"
  by code_simp

lemma not_parses_short: "\<not> keyParses (rawEvent ''set'' ''/contiv.io/service/web'')"
  by code_simp

lemma not_parses_colons:
  "\<not> keyParses (rawEvent ''set'' ''/contiv.io/service/web/10.0.0.5:80:81'')"
  by code_simp

lemma parses_web: "keyParses (rawEvent a ''/contiv.io/service/web/10.0.0.5:8080'')"
  by code_simp

lemma info_web: "keyInfo (rawEvent a ''/contiv.io/service/web/10.0.0.5:8080'') = webInfo"
  by code_simp

text \<open>
  C3, as stated, fails: a set whose key ends in the port \<open>http\<close>, which is no number, is
  sent on as an add event with port 0; and a set whose key is one level too deep is sent on
  as an add event built from its first two segments.
\<close>

theorem non_numeric_port_yields_event:
  "handleWatchResp (rawEvent ''set'' ''/contiv.io/service/web/10.0.0.5:http'')
     = Inr [addEvent \<lparr>ServiceName = ''web'', HostAddr = ''10.0.0.5'', Port = 0\<rparr>]
   \<and> handleWatchResp (rawEvent ''set'' ''/contiv.io/service/web/10.0.0.5:80/extra'')
     = Inr [addEvent \<lparr>ServiceName = ''web'', HostAddr = ''10.0.0.5'', Port = 80\<rparr>]"
  by (simp add: handleWatchResp_parsed [OF parses_http] handleWatchResp_parsed [OF parses_deep]
      info_http info_deep Action_rawEvent)

text \<open>
  C3, amended: on a response that carries a node the handler never panics, whatever the
  key. When the key of such a response, without the service prefix, has fewer than two
  segments, or its second segment does not split at colons into exactly two parts, the
  handler sends no event and the loop goes on with the next message; a loop that only
  receives responses carrying a node and stop requests never panics. (A port that is no
  number and segments beyond the second are not failures of the parse.)
\<close>

theorem unparsed_key_yields_no_event:
  "(hasNode watchResp \<longrightarrow> (\<exists>evs. handleWatchResp watchResp = Inr evs))
   \<and> (hasNode watchResp \<and> \<not> keyParses watchResp \<longrightarrow> handleWatchResp watchResp = Inr [])
   \<and> (hasNode watchResp \<and> \<not> keyParses watchResp \<longrightarrow>
        eventLoop (WatchResp watchResp # ms) = eventLoop ms)
   \<and> (list_all carriesNode ms \<longrightarrow> snd (eventLoop ms) \<noteq> Panicked)"
  by (simp add: handleWatchResp_total handleWatchResp_unparsed eventLoop_no_panic)

theorem unparsed_key_yields_no_event_witness:
  "hasNode (rawEvent ''set'' ''/contiv.io/service/web'')
   \<and> \<not> keyParses (rawEvent ''set'' ''/contiv.io/service/web'')
   \<and> handleWatchResp (rawEvent ''set'' ''/contiv.io/service/web'') = Inr []
   \<and> hasNode (rawEvent ''set'' ''/contiv.io/service/web/10.0.0.5:80:81'')
   \<and> \<not> keyParses (rawEvent ''set'' ''/contiv.io/service/web/10.0.0.5:80:81'')
   \<and> handleWatchResp (rawEvent ''set'' ''/contiv.io/service/web/10.0.0.5:80:81'') = Inr []
   \<and> list_all carriesNode [WatchResp (rawEvent ''set'' ''/contiv.io/service/web''), StopReq True]
   \<and> eventLoop [WatchResp (rawEvent ''set'' ''/contiv.io/service/web''), StopReq True]
       = ([], ThreadReturned)"
  using unparsed_key_yields_no_event [of "rawEvent ''set'' ''/contiv.io/service/web''" "[StopReq True]"]
    unparsed_key_yields_no_event [of "rawEvent ''set'' ''/contiv.io/service/web/10.0.0.5:80:81''" "[]"]
    unparsed_key_yields_no_event [of "rawEvent ''set'' ''/contiv.io/service/web''"
      "[WatchResp (rawEvent ''set'' ''/contiv.io/service/web''), StopReq True]"]
  by (simp add: not_parses_short not_parses_colons hasNode_rawEvent)

text \<open>
  C9: for a response whose key parses, the handler sends an add event for the action
  \<open>set\<close>, a delete event for the actions \<open>delete\<close> and \<open>expire\<close>, and nothing for any
  other action, each event carrying the service read from the key. The handler keeps no
  memory of the keys it has seen: a second \<open>set\<close> of the same key is sent on as a second
  add event.
\<close>

theorem translate_actions:
  assumes "keyParses watchResp"
  shows "handleWatchResp watchResp =
           Inr (if Action watchResp = ''set'' then [addEvent (keyInfo watchResp)]
                else if Action watchResp = ''delete'' \<or> Action watchResp = ''expire''
                then [delEvent (keyInfo watchResp)] else [])
         \<and> (Action watchResp = ''set'' \<longrightarrow>
              fst (eventLoop (WatchResp watchResp # WatchResp watchResp # ms))
                = addEvent (keyInfo watchResp) # addEvent (keyInfo watchResp) # fst (eventLoop ms))"
  using assms by (simp add: handleWatchResp_parsed)

theorem translate_actions_witness:
  "keyParses (rawEvent ''set'' ''/contiv.io/service/web/10.0.0.5:8080'')
   \<and> handleWatchResp (rawEvent ''set'' ''/contiv.io/service/web/10.0.0.5:8080'') = Inr [addEvent webInfo]
   \<and> handleWatchResp (rawEvent ''delete'' ''/contiv.io/service/web/10.0.0.5:8080'') = Inr [delEvent webInfo]
   \<and> handleWatchResp (rawEvent ''expire'' ''/contiv.io/service/web/10.0.0.5:8080'') = Inr [delEvent webInfo]
   \<and> handleWatchResp (rawEvent ''update'' ''/contiv.io/service/web/10.0.0.5:8080'') = Inr []
   \<and> fst (eventLoop [WatchResp (rawEvent ''set'' ''/contiv.io/service/web/10.0.0.5:8080''),
                      WatchResp (rawEvent ''set'' ''/contiv.io/service/web/10.0.0.5:8080'')])
       = [addEvent webInfo, addEvent webInfo]"
  using translate_actions [OF parses_web [of "''set''"], of "[]"]
    translate_actions [OF parses_web [of "''delete''"], of "[]"]
    translate_actions [OF parses_web [of "''expire''"], of "[]"]
    translate_actions [OF parses_web [of "''update''"], of "[]"]
  by (simp add: Action_rawEvent info_web parses_web)

section \<open>Facts about the registration table\<close>

lemma plugin_inv_Init: "plugin_inv Init"
  by (simp add: plugin_inv_def table_ok_def table_inj_def refreshers_ok_def Init_def)

lemma Deregister_missing:
  "serviceDb ep (serviceKey serviceInfo) = None \<Longrightarrow>
   DeregisterService ep serviceInfo d = (ep, Some (Error ''Service not found''))"
  by (simp add: DeregisterService_def)

lemma Deregister_found:
  "serviceDb ep (serviceKey serviceInfo) = Some st \<Longrightarrow>
   DeregisterService ep serviceInfo d =
     (ep\<lparr>chans := (chans ep)(stopChan st := chans ep (stopChan st) @ [True]),
         serviceDb := (serviceDb ep)(serviceKey serviceInfo := None),
         store_calls := store_calls ep @ [StoreDelete (serviceKey serviceInfo)]\<rparr>, d)"
  by (simp add: DeregisterService_def Let_def)

lemma plugin_inv_Deregister:
  assumes "plugin_inv ep"
  shows "plugin_inv (fst (DeregisterService ep serviceInfo d))"
proof (cases "serviceDb ep (serviceKey serviceInfo)")
  case None
  then show ?thesis using assms by (simp add: Deregister_missing)
next
  case (Some st)
  let ?k = "serviceKey serviceInfo"
  let ?ep = "fst (DeregisterService ep serviceInfo d)"
  have db: "serviceDb ?ep = (serviceDb ep)(?k := None)"
    and ch: "chans ?ep = (chans ep)(stopChan st := chans ep (stopChan st) @ [True])"
    and nx: "next_chan ?ep = next_chan ep"
    and rf: "refreshers ?ep = refreshers ep"
    using Some by (simp_all add: Deregister_found)
  from assms have t: "table_ok ep" and i: "table_inj ep" and r: "refreshers_ok ep"
    and dd: "distinct (map rf_stop (refreshers ep))"
    by (simp_all add: plugin_inv_def)
  have other: "stopChan st' \<noteq> stopChan st" if "serviceDb ep k = Some st'" "k \<noteq> ?k" for k st'
    using i Some that unfolding table_inj_def by metis
  have t': "table_ok ?ep"
    unfolding table_ok_def db ch nx rf
  proof (intro allI impI)
    fix k st'
    assume a: "((serviceDb ep)(?k := None)) k = Some st'"
    then have kk: "k \<noteq> ?k" and s: "serviceDb ep k = Some st'"
      by (auto split: if_splits)
    from t s have "stopChan st' < next_chan ep" "chans ep (stopChan st') = []"
      "\<exists>g \<in> set (refreshers ep). rf_key g = k \<and> rf_stop g = stopChan st'"
      unfolding table_ok_def by blast+
    moreover have "stopChan st' \<noteq> stopChan st" using other s kk by blast
    ultimately show "stopChan st' < next_chan ep \<and>
        ((chans ep)(stopChan st := chans ep (stopChan st) @ [True])) (stopChan st') = [] \<and>
        (\<exists>g \<in> set (refreshers ep). rf_key g = k \<and> rf_stop g = stopChan st')"
      by simp
  qed
  have i': "table_inj ?ep"
    using i unfolding table_inj_def db by (auto split: if_splits)
  have r': "refreshers_ok ?ep"
    unfolding refreshers_ok_def db ch nx rf
  proof (intro ballI conjI impI)
    fix g assume g: "g \<in> set (refreshers ep)"
    from r g show "rf_stop g < next_chan ep" unfolding refreshers_ok_def by blast
    assume e: "((chans ep)(stopChan st := chans ep (stopChan st) @ [True])) (rf_stop g) = []"
    then have ne: "rf_stop g \<noteq> stopChan st" and e0: "chans ep (rf_stop g) = []"
      by (auto split: if_splits)
    from r g e0 obtain st' where s: "serviceDb ep (rf_key g) = Some st'" "stopChan st' = rf_stop g"
      unfolding refreshers_ok_def by blast
    with ne Some have "rf_key g \<noteq> ?k" by auto
    with s show "\<exists>st'. ((serviceDb ep)(?k := None)) (rf_key g) = Some st' \<and> stopChan st' = rf_stop g"
      by simp
  qed
  show ?thesis
    unfolding plugin_inv_def using t' i' r' dd rf by simp
qed


text \<open>The plugin as \<open>RegisterService\<close> finds it once a previous registration is removed.\<close>

lemma Deregister_db_key:
  "serviceDb (fst (DeregisterService ep serviceInfo d)) (serviceKey serviceInfo) = None"
  by (cases "serviceDb ep (serviceKey serviceInfo)")
     (simp_all add: Deregister_missing Deregister_found)

lemma plugin_inv_store_calls:
  "plugin_inv (ep\<lparr>store_calls := cs\<rparr>) = plugin_inv ep"
  by (simp add: plugin_inv_def table_ok_def table_inj_def refreshers_ok_def)

lemma plugin_inv_started:
  assumes inv: "plugin_inv ep" and free: "serviceDb ep k = None"
  shows "plugin_inv (ep\<lparr>next_chan := Suc (next_chan ep),
            chans := (chans ep)(next_chan ep := []),
            refreshers := refreshers ep @ [\<lparr>rf_key = k, rf_val = v, rf_stop = next_chan ep\<rparr>],
            serviceDb := (serviceDb ep)(k \<mapsto>
              \<lparr>st_ServiceName = n, st_HostAddr = h, st_Port = p, stopChan = next_chan ep\<rparr>)\<rparr>)"
proof -
  define c where "c = next_chan ep"
  define g0 where "g0 = \<lparr>rf_key = k, rf_val = v, rf_stop = c\<rparr>"
  define s0 where "s0 = \<lparr>st_ServiceName = n, st_HostAddr = h, st_Port = p, stopChan = c\<rparr>"
  define ep' where "ep' = ep\<lparr>next_chan := Suc c, chans := (chans ep)(c := []),
     refreshers := refreshers ep @ [g0], serviceDb := (serviceDb ep)(k \<mapsto> s0)\<rparr>"
  have nx: "next_chan ep' = Suc c" and ch: "chans ep' = (chans ep)(c := [])"
    and rf: "refreshers ep' = refreshers ep @ [g0]"
    and db: "serviceDb ep' = (serviceDb ep)(k \<mapsto> s0)"
    by (simp_all add: ep'_def)
  have g0k: "rf_key g0 = k" and g0c: "rf_stop g0 = c" by (simp_all add: g0_def)
  have s0c: "stopChan s0 = c" by (simp add: s0_def)
  from inv have t: "table_ok ep" and i: "table_inj ep" and r: "refreshers_ok ep"
    and dd: "distinct (map rf_stop (refreshers ep))"
    by (simp_all add: plugin_inv_def)
  have lt: "stopChan st < c" if "serviceDb ep k' = Some st" for k' st
    using t that unfolding table_ok_def c_def by blast
  have rlt: "rf_stop g < c" if "g \<in> set (refreshers ep)" for g
    using r that unfolding refreshers_ok_def c_def by blast
  have t': "table_ok ep'"
    unfolding table_ok_def nx ch rf db
  proof (intro allI impI)
    fix k' st
    assume a: "((serviceDb ep)(k \<mapsto> s0)) k' = Some st"
    show "stopChan st < Suc c \<and> ((chans ep)(c := [])) (stopChan st) = [] \<and>
          (\<exists>g \<in> set (refreshers ep @ [g0]). rf_key g = k' \<and> rf_stop g = stopChan st)"
    proof (cases "k' = k")
      case True
      with a have "st = s0" by simp
      then show ?thesis by (simp add: s0c g0k g0c True)
    next
      case False
      with a have s: "serviceDb ep k' = Some st" by simp
      from t s have "chans ep (stopChan st) = []"
        "\<exists>g \<in> set (refreshers ep). rf_key g = k' \<and> rf_stop g = stopChan st"
        unfolding table_ok_def by blast+
      with lt [OF s] show ?thesis by auto
    qed
  qed
  have i': "table_inj ep'"
    unfolding table_inj_def db
  proof (intro allI impI)
    fix k1 k2 st1 st2
    assume a: "((serviceDb ep)(k \<mapsto> s0)) k1 = Some st1 \<and>
               ((serviceDb ep)(k \<mapsto> s0)) k2 = Some st2 \<and> stopChan st1 = stopChan st2"
    show "k1 = k2"
    proof (cases "k1 = k")
      case k1: True
      show ?thesis
      proof (cases "k2 = k")
        case True
        with k1 show ?thesis by simp
      next
        case False
        with a have "serviceDb ep k2 = Some st2" by simp
        then have "stopChan st2 < c" by (rule lt)
        moreover from a k1 have "st1 = s0" by simp
        then have "stopChan st1 = c" by (simp add: s0c)
        ultimately show ?thesis using a by simp
      qed
    next
      case k1: False
      with a have s1: "serviceDb ep k1 = Some st1" by simp
      show ?thesis
      proof (cases "k2 = k")
        case True
        with a have "st2 = s0" by simp
        then have "stopChan st2 = c" by (simp add: s0c)
        moreover have "stopChan st1 < c" using s1 by (rule lt)
        ultimately show ?thesis using a by simp
      next
        case False
        with a have "serviceDb ep k2 = Some st2" by simp
        with s1 a i show ?thesis unfolding table_inj_def by blast
      qed
    qed
  qed
  have r': "refreshers_ok ep'"
    unfolding refreshers_ok_def nx ch rf db
  proof (intro ballI)
    fix g assume g: "g \<in> set (refreshers ep @ [g0])"
    show "rf_stop g < Suc c \<and>
          (((chans ep)(c := [])) (rf_stop g) = [] \<longrightarrow>
           (\<exists>st. ((serviceDb ep)(k \<mapsto> s0)) (rf_key g) = Some st \<and> stopChan st = rf_stop g))"
    proof (cases "g = g0")
      case True
      then show ?thesis by (simp add: g0k g0c s0c)
    next
      case False
      with g have gin: "g \<in> set (refreshers ep)" by simp
      then have l: "rf_stop g < c" by (rule rlt)
      have "\<exists>st. ((serviceDb ep)(k \<mapsto> s0)) (rf_key g) = Some st \<and> stopChan st = rf_stop g"
        if e: "chans ep (rf_stop g) = []"
      proof -
        from r gin e obtain st where s: "serviceDb ep (rf_key g) = Some st" "stopChan st = rf_stop g"
          unfolding refreshers_ok_def by blast
        with free have "rf_key g \<noteq> k" by auto
        with s show ?thesis by simp
      qed
      with l show ?thesis by auto
    qed
  qed
  have d': "distinct (map rf_stop (refreshers ep'))"
    unfolding rf using dd rlt by (auto simp: g0c)
  have "plugin_inv ep'"
    unfolding plugin_inv_def using t' i' r' d' by simp
  then show ?thesis by (simp add: ep'_def c_def g0_def s0_def)
qed

lemma plugin_inv_Register:
  assumes "plugin_inv ep"
  shows "plugin_inv (fst (RegisterService ep serviceInfo r))"
proof -
  let ?k = "serviceKey serviceInfo"
  define ep1 where "ep1 = (if serviceDb ep ?k \<noteq> None
                 then fst (DeregisterService ep serviceInfo (delete_reply r)) else ep)"
  have inv1: "plugin_inv ep1"
    using assms by (simp add: ep1_def plugin_inv_Deregister)
  have free: "serviceDb ep1 ?k = None"
    by (simp add: ep1_def Deregister_db_key)
  show ?thesis
  proof (cases "marshal_reply r")
    case (Inl err)
    then have "fst (RegisterService ep serviceInfo r) = ep1"
      by (simp add: RegisterService_def Let_def ep1_def)
    then show ?thesis using inv1 by simp
  next
    case (Inr jsonVal)
    define ep2 where "ep2 = ep1\<lparr>store_calls := store_calls ep1 @ [StoreSet ?k jsonVal serviceTTL]\<rparr>"
    have inv2: "plugin_inv ep2" using inv1 by (simp add: ep2_def plugin_inv_store_calls)
    have free2: "serviceDb ep2 ?k = None" using free by (simp add: ep2_def)
    show ?thesis
    proof (cases "set_reply r")
      case (Some err)
      with Inr have "fst (RegisterService ep serviceInfo r) = ep2"
        by (simp add: RegisterService_def Let_def ep1_def ep2_def)
      then show ?thesis using inv2 by simp
    next
      case None
      have "fst (RegisterService ep serviceInfo r) =
           ep2\<lparr>next_chan := Suc (next_chan ep2),
              chans := (chans ep2)(next_chan ep2 := []),
              refreshers := refreshers ep2 @
                [\<lparr>rf_key = ?k, rf_val = jsonVal, rf_stop = next_chan ep2\<rparr>],
              serviceDb := (serviceDb ep2)(?k \<mapsto>
                \<lparr>st_ServiceName = ServiceName serviceInfo,
                 st_HostAddr = HostAddr serviceInfo,
                 st_Port = Port serviceInfo,
                 stopChan = next_chan ep2\<rparr>)\<rparr>"
        using Inr None
        by (simp add: RegisterService_def Let_def ep1_def ep2_def)
      then show ?thesis using plugin_inv_started [OF inv2 free2] by simp
    qed
  qed
qed

lemma plugin_inv_step: "plugin_inv ep \<Longrightarrow> plugin_inv (step ep c)"
  by (cases c) (simp_all add: plugin_inv_Register plugin_inv_Deregister)

lemma plugin_inv_foldl: "plugin_inv ep \<Longrightarrow> plugin_inv (foldl step ep cs)"
  by (induction cs arbitrary: ep) (simp_all add: plugin_inv_step)

lemma plugin_inv_run: "plugin_inv (run cs)"
  by (simp add: run_def plugin_inv_foldl plugin_inv_Init)

lemma filter_distinct_one:
  "distinct (map f xs) \<Longrightarrow> c \<in> f ` set xs \<Longrightarrow> length (filter (\<lambda>x. f x = c) xs) = 1"
proof (induction xs)
  case Nil
  then show ?case by simp
next
  case (Cons x xs)
  show ?case
  proof (cases "f x = c")
    case True
    with Cons.prems have "c \<notin> f ` set xs" by auto
    then have "filter (\<lambda>x. f x = c) xs = []" by (auto simp: filter_empty_conv)
    with True show ?thesis by simp
  next
    case False
    with Cons show ?thesis by auto
  qed
qed

lemma unsignalled_count:
  assumes "plugin_inv ep"
  shows "length (unsignalledRefreshers ep k) = (if serviceDb ep k = None then 0 else 1)"
proof (cases "serviceDb ep k")
  case None
  from assms have r: "refreshers_ok ep" by (simp add: plugin_inv_def)
  have "unsignalledRefreshers ep k = []"
    unfolding unsignalledRefreshers_def filter_empty_conv unsignalled_def
  proof (intro ballI notI)
    fix g assume "g \<in> set (refreshers ep)" "rf_key g = k \<and> chans ep (rf_stop g) = []"
    with r obtain st where "serviceDb ep k = Some st"
      unfolding refreshers_ok_def by blast
    with None show False by simp
  qed
  with None show ?thesis by simp
next
  case (Some st)
  from assms have t: "table_ok ep" and r: "refreshers_ok ep"
    and dd: "distinct (map rf_stop (refreshers ep))"
    by (simp_all add: plugin_inv_def)
  from t Some obtain g0 where g0: "g0 \<in> set (refreshers ep)" "rf_key g0 = k"
      "rf_stop g0 = stopChan st" and e: "chans ep (stopChan st) = []"
    unfolding table_ok_def by blast
  have inj: "inj_on rf_stop (set (refreshers ep))"
    using dd by (simp add: distinct_map)
  have eq: "(rf_key g = k \<and> unsignalled ep g) = (rf_stop g = stopChan st)"
    if g: "g \<in> set (refreshers ep)" for g
  proof
    assume "rf_key g = k \<and> unsignalled ep g"
    with r g obtain st' where "serviceDb ep k = Some st'" "stopChan st' = rf_stop g"
      unfolding refreshers_ok_def unsignalled_def by blast
    with Some show "rf_stop g = stopChan st" by simp
  next
    assume a: "rf_stop g = stopChan st"
    with g0 have "rf_stop g = rf_stop g0" by simp
    with inj have "g = g0" using g g0(1) by (rule inj_onD)
    with g0 e a show "rf_key g = k \<and> unsignalled ep g" by (simp add: unsignalled_def)
  qed
  have "unsignalledRefreshers ep k = filter (\<lambda>g. rf_stop g = stopChan st) (refreshers ep)"
    unfolding unsignalledRefreshers_def using eq by (auto intro: filter_cong)
  moreover have "stopChan st \<in> rf_stop ` set (refreshers ep)"
    using g0 by force
  ultimately show ?thesis using filter_distinct_one [OF dd] Some by simp
qed

lemma Register_error_state:
  assumes "snd (RegisterService ep serviceInfo r) = Some err"
  shows "serviceDb (fst (RegisterService ep serviceInfo r)) (serviceKey serviceInfo) = None"
    and "refreshers (fst (RegisterService ep serviceInfo r)) = refreshers ep"
    and "next_chan (fst (RegisterService ep serviceInfo r)) = next_chan ep"
  using assms
  by (auto simp: RegisterService_def Let_def Deregister_db_key Deregister_found
      split: sum.splits option.splits)

lemma Register_stops_previous:
  assumes "serviceDb ep (serviceKey serviceInfo) = Some st" and "stopChan st < next_chan ep"
  shows "chans (fst (RegisterService ep serviceInfo r)) (stopChan st)
           = chans ep (stopChan st) @ [True]"
  using assms
  by (auto simp: RegisterService_def Let_def Deregister_found split: sum.splits option.splits)

lemma Register_store_calls:
  "store_calls (fst (RegisterService ep serviceInfo r)) =
     store_calls ep
     @ (if serviceDb ep (serviceKey serviceInfo) \<noteq> None
        then [StoreDelete (serviceKey serviceInfo)] else [])
     @ (case marshal_reply r of Inl e \<Rightarrow> []
        | Inr jsonVal \<Rightarrow> [StoreSet (serviceKey serviceInfo) jsonVal serviceTTL])"
  by (auto simp: RegisterService_def Let_def Deregister_found split: sum.splits option.splits)

lemma Register_new_record:
  assumes "serviceDb (fst (RegisterService ep serviceInfo r)) (serviceKey serviceInfo) = Some st'"
  shows "stopChan st' = next_chan ep \<and> snd (RegisterService ep serviceInfo r) = None"
  using assms
  by (auto simp: RegisterService_def Let_def Deregister_db_key Deregister_found Deregister_missing
      split: sum.splits option.splits if_splits)

section \<open>Facts about the refresh goroutine\<close>

lemma refreshInterval_num: "refreshInterval = 10000000000"
  by (simp add: refreshInterval_def serviceTTL_def Second_def)

lemma renew_fields:
  "rn_start (renew k v now c) = now"
  "rn_fired (renew k v now c) = now + refreshInterval"
  "rn_writes (renew k v now c) =
     (if snd (set1 c) = None then [(now + refreshInterval, StoreSet k v serviceTTL)]
      else [(now + refreshInterval, StoreSet k v serviceTTL),
            (now + refreshInterval + fst (set1 c), StoreSet k v serviceTTL)])"
  "rn_end (renew k v now c) =
     (if snd (set1 c) = None then now + refreshInterval + fst (set1 c)
      else now + refreshInterval + fst (set1 c) + fst (set2 c))"
  by (simp_all add: renew_def Let_def split: option.splits)

lemma renew_end_ge: "now + refreshInterval \<le> rn_end (renew k v now c)"
  by (simp add: renew_fields)






lemma cycles_before_stop:
  "\<forall>cy \<in> set (rr_cycles (refreshService k v (Some t) now cs)). rn_fired cy \<le> t"
proof (induction cs arbitrary: now)
  case Nil
  then show ?case by simp
next
  case (Cons c cs)
  show ?case
  proof (cases "stopTaken (Some t) (now + refreshInterval) (pick_timer c)")
    case True
    then show ?thesis by simp
  next
    case False
    then have "now + refreshInterval \<le> t" by (auto simp: stopTaken_def)
    with False Cons show ?thesis by (simp add: renew_fields)
  qed
qed

lemma stop_returns:
  assumes "cs \<noteq> []" and "t < now + refreshInterval * length cs"
  shows "rr_exit (refreshService k v (Some t) now cs)
           = Returned (max t (last (now # map rn_end (rr_cycles (refreshService k v (Some t) now cs)))))"
  using assms
proof (induction cs arbitrary: now)
  case Nil
  then show ?case by simp
next
  case (Cons c cs)
  show ?case
  proof (cases "stopTaken (Some t) (now + refreshInterval) (pick_timer c)")
    case True
    then show ?thesis by (simp add: max.commute)
  next
    case False
    then have ge: "now + refreshInterval \<le> t" by (auto simp: stopTaken_def)
    let ?now' = "rn_end (renew k v now c)"
    have le: "now + refreshInterval \<le> ?now'" by (rule renew_end_ge)
    from Cons.prems ge have ne: "cs \<noteq> []" by (cases cs) auto
    from Cons.prems le have "t < ?now' + refreshInterval * length cs" by simp
    with ne have "rr_exit (refreshService k v (Some t) ?now' cs)
           = Returned (max t (last (?now' # map rn_end (rr_cycles (refreshService k v (Some t) ?now' cs)))))"
      by (rule Cons.IH)
    with False show ?thesis by simp
  qed
qed

lemma no_stop_keeps_running:
  "length (rr_cycles (refreshService k v None now cs)) = length cs
   \<and> (\<exists>\<tau>. rr_exit (refreshService k v None now cs) = Waiting \<tau>)"
  by (induction cs arbitrary: now) (simp_all add: stopTaken_def)

section \<open>Facts about sequences of calls\<close>

lemma run_snoc: "run (cs @ [c]) = step (run cs) c"
  by (simp add: run_def)

lemma run_once_db:
  "serviceDb (run [Register webInfo allOk]) (serviceKey webInfo)
     = Some \<lparr>st_ServiceName = ''web'', st_HostAddr = ''10.0.0.5'', st_Port = 8080, stopChan = 0\<rparr>"
  by (simp add: run_def RegisterService_def Init_def allOk_def Let_def)
     (simp add: webInfo_def)

lemma Register_setFails:
  "snd (RegisterService ep serviceInfo setFails) = Some (Error ''connection refused'')"
  by (simp add: RegisterService_def Let_def setFails_def)

lemma refresher_of_record:
  assumes "plugin_inv ep" and "serviceDb ep k = Some st"
    and "g \<in> set (refreshers ep)" and "rf_stop g = stopChan st"
  shows "rf_key g = k"
proof -
  from assms(1) have t: "table_ok ep" and dd: "distinct (map rf_stop (refreshers ep))"
    by (simp_all add: plugin_inv_def)
  from t assms(2) obtain g0 where g0: "g0 \<in> set (refreshers ep)" "rf_key g0 = k"
      "rf_stop g0 = stopChan st"
    unfolding table_ok_def by blast
  have inj: "inj_on rf_stop (set (refreshers ep))"
    using dd by (simp add: distinct_map)
  from g0 assms(4) have "rf_stop g = rf_stop g0" by simp
  with inj have "g = g0" using assms(3) g0(1) by (rule inj_onD)
  with g0 show ?thesis by simp
qed

lemma run_twice_refreshers:
  "refreshers (run [Register webInfo allOk, Register webInfo allOk]) = [oldLoop, newLoop]"
  by (simp add: run_def RegisterService_def DeregisterService_def Init_def allOk_def Let_def
      oldLoop_def newLoop_def)

lemma run_twice_chans:
  "chans (run [Register webInfo allOk, Register webInfo allOk]) 0 = [True]"
  by (simp add: run_def RegisterService_def DeregisterService_def Init_def allOk_def Let_def)

lemma run_once_refreshers:
  "refreshers (run [Register webInfo allOk]) = [oldLoop]"
  by (simp add: run_def RegisterService_def DeregisterService_def Init_def allOk_def Let_def
      oldLoop_def)

lemma oldLoopRun_cycles:
  "rr_cycles oldLoopRun =
     [\<lparr>rn_start = 0, rn_fired = 10000000000,
       rn_writes = [(10000000000, StoreSet (serviceKey webInfo) ''{web 10.0.0.5 8080}'' 30),
                    (11000000000, StoreSet (serviceKey webInfo) ''{web 10.0.0.5 8080}'' 30)],
       rn_end = 12000000000\<rparr>]"
  by (simp add: oldLoopRun_def loopRun_def oldLoop_def okCycle_def failCycle_def stopTaken_def
      renew_def refreshInterval_num serviceTTL_def Let_def)

lemma oldLoopRun_exit: "rr_exit oldLoopRun = Returned 12000000000"
  by (simp add: oldLoopRun_def loopRun_def oldLoop_def okCycle_def failCycle_def stopTaken_def
      renew_def refreshInterval_num serviceTTL_def Let_def)

lemma oldLoopRun_writeTimes: "writeTimes oldLoopRun = [10000000000, 11000000000]"
  by (simp add: writeTimes_def oldLoopRun_cycles)

text \<open>
  C5, as stated, fails: registering \<open>webInfo\<close> twice starts two refresh goroutines for the
  same key, and the second call sends the first one the stop value without waiting for it
  to end. With the first goroutine started at time 0, its first set failing, and the
  second registration made at 10.5 seconds, the first goroutine still issues its retry at
  11 seconds and returns at 12 seconds only: from 10.5 to 12 seconds the identity has two
  renewal loops, and the old one writes after it was told to stop.
\<close>

theorem stopped_loop_still_writes:
  "refreshers (run [Register webInfo allOk, Register webInfo allOk]) = [oldLoop, newLoop]
   \<and> rf_key oldLoop = rf_key newLoop
   \<and> chans (run [Register webInfo allOk, Register webInfo allOk]) (rf_stop oldLoop) = [True]
   \<and> oldLoopRun = loopRun oldLoop (Some 10500000000) 0 [failCycle, okCycle]
   \<and> writeTimes oldLoopRun = [10000000000, 11000000000]
   \<and> rr_exit oldLoopRun = Returned 12000000000"
  by (simp add: run_twice_refreshers oldLoopRun_writeTimes oldLoopRun_exit)
     (simp add: oldLoop_def newLoop_def run_twice_chans oldLoopRun_def)

text \<open>
  C5, amended: after any sequence of \<open>RegisterService\<close> and \<open>DeregisterService\<close> calls
  on a fresh plugin, whatever the store answers, the table has at most one record per key
  (the key is a function of the identity), and the number of started refresh goroutines
  for a key that have not been sent the stop value is 1 when the table has a record for
  the key and 0 when it has none. Registering an identity whose key has a record sends
  the stop value to the goroutine of that record, which refreshes that key, and deletes
  the key from the store before the new value is set; a record made by the call has a
  channel different from the old one. The stop is not waited for: the old goroutine, sent
  the stop value at time \<open>t\<close>, lets no timer fire after \<open>t\<close> and, given enough rounds of
  input, returns at the later of \<open>t\<close> and the end of the renewal it is in.
\<close>

theorem one_unsignalled_refresher:
  "length (unsignalledRefreshers (run cs) k) = (if serviceDb (run cs) k = None then 0 else 1)
   \<and> (serviceDb (run cs) (serviceKey serviceInfo) = Some st \<longrightarrow>
        chans (run (cs @ [Register serviceInfo r])) (stopChan st) = [True]
        \<and> (\<forall>st'. serviceDb (run (cs @ [Register serviceInfo r])) (serviceKey serviceInfo) = Some st'
              \<longrightarrow> stopChan st' \<noteq> stopChan st)
        \<and> store_calls (run (cs @ [Register serviceInfo r])) =
            store_calls (run cs) @ StoreDelete (serviceKey serviceInfo) #
              (case marshal_reply r of Inl e \<Rightarrow> []
               | Inr jsonVal \<Rightarrow> [StoreSet (serviceKey serviceInfo) jsonVal serviceTTL])
        \<and> (\<forall>g \<in> set (refreshers (run cs)). rf_stop g = stopChan st \<longrightarrow>
              rf_key g = serviceKey serviceInfo
              \<and> (\<forall>cy \<in> set (rr_cycles (loopRun g (Some t) started inputs)). rn_fired cy \<le> t)
              \<and> (inputs \<noteq> [] \<and> t < started + refreshInterval * length inputs \<longrightarrow>
                   rr_exit (loopRun g (Some t) started inputs) =
                     Returned (max t (last (started #
                       map rn_end (rr_cycles (loopRun g (Some t) started inputs))))))))"
proof (intro conjI impI allI ballI)
  show "length (unsignalledRefreshers (run cs) k) = (if serviceDb (run cs) k = None then 0 else 1)"
    using plugin_inv_run by (rule unsignalled_count)
next
  assume s: "serviceDb (run cs) (serviceKey serviceInfo) = Some st"
  have "table_ok (run cs)" using plugin_inv_run [of cs] by (simp add: plugin_inv_def)
  with s have lt: "stopChan st < next_chan (run cs)" and e: "chans (run cs) (stopChan st) = []"
    unfolding table_ok_def by blast+
  show "chans (run (cs @ [Register serviceInfo r])) (stopChan st) = [True]"
    using Register_stops_previous [OF s lt, of r] e by (simp add: run_snoc)
  show "store_calls (run (cs @ [Register serviceInfo r])) =
            store_calls (run cs) @ StoreDelete (serviceKey serviceInfo) #
              (case marshal_reply r of Inl e \<Rightarrow> []
               | Inr jsonVal \<Rightarrow> [StoreSet (serviceKey serviceInfo) jsonVal serviceTTL])"
    using s by (simp add: run_snoc Register_store_calls)
  {
    fix st'
    assume "serviceDb (run (cs @ [Register serviceInfo r])) (serviceKey serviceInfo) = Some st'"
    then have "stopChan st' = next_chan (run cs)"
      using Register_new_record [of "run cs" serviceInfo r st'] by (simp add: run_snoc)
    with lt show "stopChan st' \<noteq> stopChan st" by simp
  }
  {
    fix g
    assume g: "g \<in> set (refreshers (run cs))" "rf_stop g = stopChan st"
    show "rf_key g = serviceKey serviceInfo"
      using plugin_inv_run s g by (rule refresher_of_record)
    show "rn_fired cy \<le> t" if "cy \<in> set (rr_cycles (loopRun g (Some t) started inputs))" for cy
      using that cycles_before_stop unfolding loopRun_def by blast
    show "rr_exit (loopRun g (Some t) started inputs) =
            Returned (max t (last (started #
              map rn_end (rr_cycles (loopRun g (Some t) started inputs)))))"
      if "inputs \<noteq> [] \<and> t < started + refreshInterval * length inputs"
      unfolding loopRun_def using that by (simp add: stop_returns)
  }
qed

theorem one_unsignalled_refresher_witness:
  "serviceDb (run [Register webInfo allOk]) (serviceKey webInfo)
     = Some \<lparr>st_ServiceName = ''web'', st_HostAddr = ''10.0.0.5'', st_Port = 8080, stopChan = 0\<rparr>
   \<and> length (unsignalledRefreshers (run [Register webInfo allOk]) (serviceKey webInfo)) = 1
   \<and> chans (run ([Register webInfo allOk] @ [Register webInfo allOk])) 0 = [True]
   \<and> oldLoop \<in> set (refreshers (run [Register webInfo allOk])) \<and> rf_stop oldLoop = 0
   \<and> rf_key oldLoop = serviceKey webInfo
   \<and> [failCycle, okCycle] \<noteq> []
   \<and> (10500000000 :: nat) < 0 + refreshInterval * length [failCycle, okCycle]
   \<and> rr_exit (loopRun oldLoop (Some 10500000000) 0 [failCycle, okCycle]) = Returned 12000000000"
proof -
  have db: "serviceDb (run [Register webInfo allOk]) (serviceKey webInfo)
     = Some \<lparr>st_ServiceName = ''web'', st_HostAddr = ''10.0.0.5'', st_Port = 8080, stopChan = 0\<rparr>"
    by (rule run_once_db)
  have g: "oldLoop \<in> set (refreshers (run [Register webInfo allOk]))" "rf_stop oldLoop = 0"
    by (simp_all add: run_once_refreshers) (simp add: oldLoop_def)
  have fuel: "(10500000000 :: nat) < 0 + refreshInterval * length [failCycle, okCycle]"
    by (simp add: refreshInterval_num)
  note T = one_unsignalled_refresher [of "[Register webInfo allOk]" "serviceKey webInfo" webInfo
      "\<lparr>st_ServiceName = ''web'', st_HostAddr = ''10.0.0.5'', st_Port = 8080, stopChan = 0\<rparr>" allOk
      10500000000 0 "[failCycle, okCycle]"]
  from T db have n: "length (unsignalledRefreshers (run [Register webInfo allOk]) (serviceKey webInfo)) = 1"
    by simp
  from T db have c: "chans (run ([Register webInfo allOk] @ [Register webInfo allOk])) 0 = [True]"
    by simp
  from T db g have k: "rf_key oldLoop = serviceKey webInfo" by simp
  from T db g fuel
  have "rr_exit (loopRun oldLoop (Some 10500000000) 0 [failCycle, okCycle]) =
          Returned (max 10500000000 (last (0 #
            map rn_end (rr_cycles (loopRun oldLoop (Some 10500000000) 0 [failCycle, okCycle])))))"
    by simp
  then have x: "rr_exit (loopRun oldLoop (Some 10500000000) 0 [failCycle, okCycle])
                  = Returned 12000000000"
    using oldLoopRun_cycles by (simp add: oldLoopRun_def)
  show ?thesis using db n c g k fuel x by simp
qed


lemma serviceKey_slashName: "serviceKey slashName = ''/contiv.io/service/a/b/c:1''"
  by code_simp

lemma serviceKey_slashHost: "serviceKey slashHost = ''/contiv.io/service/a/b/c:1''"
  by code_simp

lemma slash_differ: "slashName \<noteq> slashHost"
  by (simp add: slashName_def slashHost_def)

lemma run_slash_db:
  "serviceDb (run [Register slashName slashOk]) (serviceKey slashName)
     = Some \<lparr>st_ServiceName = ''a/b'', st_HostAddr = ''c'', st_Port = 1, stopChan = 0\<rparr>"
  by (simp add: run_def RegisterService_def Init_def slashOk_def Let_def)
     (simp add: slashName_def)

text \<open>
  C6, as stated, fails: the identities (a/b, c, 1) and (a, b/c, 1) have the same key. With
  only the first one registered, deregistering the second, for which no registration
  exists, returns no error and removes the record of the first.
\<close>

theorem deregister_other_identity:
  "slashName \<noteq> slashHost
   \<and> serviceKey slashHost = serviceKey slashName
   \<and> serviceDb (run [Register slashName slashOk]) (serviceKey slashName)
       = Some \<lparr>st_ServiceName = ''a/b'', st_HostAddr = ''c'', st_Port = 1, stopChan = 0\<rparr>
   \<and> snd (DeregisterService (run [Register slashName slashOk]) slashHost None) = None
   \<and> serviceDb (fst (DeregisterService (run [Register slashName slashOk]) slashHost None))
        (serviceKey slashName) = None"
proof -
  have k: "serviceKey slashHost = serviceKey slashName"
    by (simp add: serviceKey_slashName serviceKey_slashHost)
  have db: "serviceDb (run [Register slashName slashOk]) (serviceKey slashHost)
     = Some \<lparr>st_ServiceName = ''a/b'', st_HostAddr = ''c'', st_Port = 1, stopChan = 0\<rparr>"
    unfolding k by (rule run_slash_db)
  show ?thesis
    using slash_differ k run_slash_db Deregister_found [OF db, of None] by simp
qed

text \<open>
  C6, amended: \<open>DeregisterService\<close> returns the error "Service not found", and leaves the
  plugin as it was, when the table has no record under the key of the identity. Otherwise
  (the table has a record under that key, whichever identity it was registered for) it
  sends the stop value on the channel of the record, removes the record (and no other),
  issues the delete of the key to the store, and returns what the store answered to the
  delete, an error included, the record being removed all the same.
\<close>

theorem deregister_behaviour:
  "(serviceDb ep (serviceKey serviceInfo) = None \<longrightarrow>
      DeregisterService ep serviceInfo d = (ep, Some (Error ''Service not found'')))
   \<and> (serviceDb ep (serviceKey serviceInfo) = Some st \<longrightarrow>
        snd (DeregisterService ep serviceInfo d) = d
        \<and> serviceDb (fst (DeregisterService ep serviceInfo d)) (serviceKey serviceInfo) = None
        \<and> (\<forall>k. k \<noteq> serviceKey serviceInfo \<longrightarrow>
              serviceDb (fst (DeregisterService ep serviceInfo d)) k = serviceDb ep k)
        \<and> chans (fst (DeregisterService ep serviceInfo d)) (stopChan st)
            = chans ep (stopChan st) @ [True]
        \<and> refreshers (fst (DeregisterService ep serviceInfo d)) = refreshers ep
        \<and> store_calls (fst (DeregisterService ep serviceInfo d))
            = store_calls ep @ [StoreDelete (serviceKey serviceInfo)])"
  by (simp add: Deregister_missing Deregister_found)

theorem deregister_behaviour_witness:
  "serviceDb Init (serviceKey webInfo) = None
   \<and> DeregisterService Init webInfo None = (Init, Some (Error ''Service not found''))
   \<and> serviceDb (run [Register webInfo allOk]) (serviceKey webInfo)
       = Some \<lparr>st_ServiceName = ''web'', st_HostAddr = ''10.0.0.5'', st_Port = 8080, stopChan = 0\<rparr>
   \<and> snd (DeregisterService (run [Register webInfo allOk]) webInfo (Some (Error ''connection refused'')))
       = Some (Error ''connection refused'')
   \<and> serviceDb (fst (DeregisterService (run [Register webInfo allOk]) webInfo
         (Some (Error ''connection refused'')))) (serviceKey webInfo) = None"
  using deregister_behaviour [of Init webInfo None]
    deregister_behaviour [of "run [Register webInfo allOk]" webInfo
      "Some (Error ''connection refused'')"
      "\<lparr>st_ServiceName = ''web'', st_HostAddr = ''10.0.0.5'', st_Port = 8080, stopChan = 0\<rparr>"]
  by (simp add: run_once_db) (simp add: Init_def)

text \<open>
  C10: when \<open>RegisterService\<close>, called after any sequence of calls, returns an error, the
  table has no record for the identity, no refresh goroutine was started by the call and
  none that has not been sent the stop value is left for the key. If the identity had a record before the call, its goroutine was
  sent the stop value and the delete of the key was issued before the set, so the previous
  registration is gone and is not restored.
\<close>

theorem failed_register_leaves_nothing:
  assumes "snd (RegisterService (run cs) serviceInfo r) = Some err"
  shows "serviceDb (fst (RegisterService (run cs) serviceInfo r)) (serviceKey serviceInfo) = None
    \<and> refreshers (fst (RegisterService (run cs) serviceInfo r)) = refreshers (run cs)
    \<and> unsignalledRefreshers (fst (RegisterService (run cs) serviceInfo r)) (serviceKey serviceInfo) = []
    \<and> (\<forall>st. serviceDb (run cs) (serviceKey serviceInfo) = Some st \<longrightarrow>
          chans (fst (RegisterService (run cs) serviceInfo r)) (stopChan st) = [True]
          \<and> store_calls (fst (RegisterService (run cs) serviceInfo r)) =
              store_calls (run cs) @ StoreDelete (serviceKey serviceInfo) #
                (case marshal_reply r of Inl e \<Rightarrow> []
                 | Inr jsonVal \<Rightarrow> [StoreSet (serviceKey serviceInfo) jsonVal serviceTTL]))"
proof -
  let ?ep' = "fst (RegisterService (run cs) serviceInfo r)"
  have db: "serviceDb ?ep' (serviceKey serviceInfo) = None"
    and rf: "refreshers ?ep' = refreshers (run cs)"
    using assms by (rule Register_error_state)+
  have "plugin_inv ?ep'" using plugin_inv_run by (rule plugin_inv_Register)
  then have "length (unsignalledRefreshers ?ep' (serviceKey serviceInfo)) = 0"
    using db by (simp add: unsignalled_count)
  then have lv: "unsignalledRefreshers ?ep' (serviceKey serviceInfo) = []" by simp
  have old: "chans ?ep' (stopChan st) = [True]
          \<and> store_calls ?ep' =
              store_calls (run cs) @ StoreDelete (serviceKey serviceInfo) #
                (case marshal_reply r of Inl e \<Rightarrow> []
                 | Inr jsonVal \<Rightarrow> [StoreSet (serviceKey serviceInfo) jsonVal serviceTTL])"
    if s: "serviceDb (run cs) (serviceKey serviceInfo) = Some st" for st
  proof -
    have "table_ok (run cs)" using plugin_inv_run [of cs] by (simp add: plugin_inv_def)
    with s have lt: "stopChan st < next_chan (run cs)" and e: "chans (run cs) (stopChan st) = []"
      unfolding table_ok_def by blast+
    show ?thesis
      using Register_stops_previous [OF s lt, of r] e s by (simp add: Register_store_calls)
  qed
  show ?thesis using db rf lv old by blast
qed

theorem failed_register_leaves_nothing_witness:
  "snd (RegisterService (run [Register webInfo allOk]) webInfo setFails)
     = Some (Error ''connection refused'')
   \<and> serviceDb (run [Register webInfo allOk]) (serviceKey webInfo)
       = Some \<lparr>st_ServiceName = ''web'', st_HostAddr = ''10.0.0.5'', st_Port = 8080, stopChan = 0\<rparr>
   \<and> serviceDb (fst (RegisterService (run [Register webInfo allOk]) webInfo setFails))
         (serviceKey webInfo) = None
   \<and> unsignalledRefreshers (fst (RegisterService (run [Register webInfo allOk]) webInfo setFails))
         (serviceKey webInfo) = []
   \<and> chans (fst (RegisterService (run [Register webInfo allOk]) webInfo setFails)) 0 = [True]"
proof -
  have h: "snd (RegisterService (run [Register webInfo allOk]) webInfo setFails)
     = Some (Error ''connection refused'')"
    by (rule Register_setFails)
  show ?thesis
    using h failed_register_leaves_nothing [OF h] by (simp add: run_once_db)
qed




lemma slowRun_cycles:
  "rr_cycles slowRun =
     [\<lparr>rn_start = 0, rn_fired = 10000000000,
       rn_writes = [(10000000000,
          StoreSet ''/contiv.io/service/web/10.0.0.5:8080'' ''{web 10.0.0.5 8080}'' 30)],
       rn_end = 70000000000\<rparr>]"
  by (simp add: slowRun_def okCycle_def slowCycle_def stopTaken_def renew_def
      refreshInterval_num serviceTTL_def Let_def)





end
